theory Spec2Isabelle
  imports Complex_Main "HOL-Library.Word" "HOL-Library.AList"
begin

section \<open>Common types\<close>

text \<open>
  Error codes of \<^verbatim>\<open>tools/errors.h\<close> that the modelled functions produce or compare
  against (\<open>errCodeRaw n\<close> is a code given as a bare number, as in \<^verbatim>\<open>Error(-1, ...)\<close>),
  and the \<^verbatim>\<open>Error\<close> value (a code and a message).
\<close>

datatype ErrorCode =
  errOK | errParseJson | errParams | errLogic | errForbidden | errNotFound | errStateInvalidated
  | errTagsMissmatch | errNamespaceInvalidated | errConflict | errCanceled
  | errCodeRaw int

datatype Error = Error (code: ErrorCode) (what: string)

definition ok :: "Error \<Rightarrow> bool" where
  "ok e = (code e = errOK)"

type_synonym size_t = "64 word"

type_synonym IdType = int

section \<open>Store index: \<^verbatim>\<open>core/index/indexstore.h\<close>, \<^verbatim>\<open>indexstore.cc\<close>\<close>

subsection \<open>Keys\<close>

text \<open>
  Modelled from the spec: \<^verbatim>\<open>key_string\<close> and \<^verbatim>\<open>Variant\<close> are declared outside these
  files. The spec describes a Variant as a tagged union over the scalar kinds plus Null,
  and \<^verbatim>\<open>key_string\<close> as a reference-counted immutable string. Two key strings with
  equal characters may be different objects, so the model keeps the object's identity
  (\<open>ks_ptr\<close>) next to its characters (\<open>ks_view\<close>, what \<^verbatim>\<open>string_view(key)\<close>
  reads).

  The keys a string index receives are either \<^verbatim>\<open>Variant()\<close>, of type
  \<^verbatim>\<open>KeyValueNull\<close>, or string Variants; \<open>VString ks\<close> is a string Variant together
  with the \<^verbatim>\<open>key_string\<close> that \<^verbatim>\<open>static_cast<key_string>(key)\<close> yields for it.
\<close>

datatype key_string = KeyString (ks_ptr: nat) (ks_view: string)

datatype KeyValueType =
  KeyValueNull | KeyValueString | KeyValueInt | KeyValueInt64 | KeyValueDouble | KeyValueBool
  | KeyValueComposite

datatype Variant = VNull | VString key_string

fun Type :: "Variant \<Rightarrow> KeyValueType" where
  "Type VNull = KeyValueNull"
| "Type (VString ks) = KeyValueString"

type_synonym VariantArray = "Variant list"

subsection \<open>The index object\<close>

text \<open>
  The sizes that the memory statistics add and subtract are compile-time constants of
  types declared outside these files; they are parameters of the model:
  \<^item> \<open>sizeof_map_value\<close> is \<^verbatim>\<open>sizeof(unordered_str_map<int>::value_type)\<close>,
  \<^item> \<open>sizeof_vec_value\<close> is \<^verbatim>\<open>sizeof(vector<key_string>::value_type)\<close>,
  \<^item> \<open>sizeof_base_key_string\<close> is \<^verbatim>\<open>sizeof(*keyIt->first.get())\<close>,
  \<^item> \<open>heap_size\<close> is \<^verbatim>\<open>keyIt->first->heap_size()\<close>.
\<close>

record Sizes =
  sizeof_map_value :: size_t
  sizeof_vec_value :: size_t
  sizeof_base_key_string :: size_t
  heap_size :: "key_string \<Rightarrow> size_t"

record IndexOpts =
  IsArray :: bool
  IsSparse :: bool
  IsDense :: bool
  collateOpts :: nat

text \<open>
  The members of the base class \<^verbatim>\<open>Index\<close> that the store index reads. A C++ member
  \<^verbatim>\<open>x_\<close> is the field \<open>x\<close> here, since an Isabelle name cannot end with an underscore
  (\<^verbatim>\<open>fields_\<close>, of type \<^verbatim>\<open>FieldsSet\<close>, is \<open>fieldsSet\<close>).
\<close>

record Index =
  name :: string
  opts :: IndexOpts
  keyType :: KeyValueType
  payloadType :: nat
  fieldsSet :: "nat list"

record IndexMemStat =
  dataSize :: size_t

text \<open>
  \<^verbatim>\<open>unordered_str_map<int>\<close> hashes and compares its \<^verbatim>\<open>key_string\<close> keys by their
  characters: the map is keyed by the characters and holds the stored key object with its
  counter. The counter is a C++ \<^verbatim>\<open>int\<close>, here a 32-bit word read with \<open>sint\<close>; an
  increment past the largest \<^verbatim>\<open>int\<close>, which C++ leaves undefined, wraps around.
\<close>

record 't IndexStore = Index +
  str_map :: "string \<rightharpoonup> key_string \<times> 32 word"
  idx_data :: "'t list"
  memStat :: IndexMemStat
  expiredStrings :: "key_string list"
  expiredStringsMemStat :: size_t

text \<open>
  \<^verbatim>\<open>IndexStore<key_string>::IndexStore(const IndexStore &other)\<close> copies the base
  object, \<^verbatim>\<open>str_map\<close>, \<^verbatim>\<open>idx_data\<close> and \<^verbatim>\<open>memStat_\<close>; the two remaining members
  get their default initialisers.
\<close>

definition IndexStore_copy :: "key_string IndexStore \<Rightarrow> key_string IndexStore" where
  "IndexStore_copy other =
     \<lparr> name = name other, opts = opts other, keyType = keyType other,
       payloadType = payloadType other, fieldsSet = fieldsSet other,
       str_map = str_map other, idx_data = idx_data other, memStat = memStat other,
       expiredStrings = [], expiredStringsMemStat = 0 \<rparr>"


text \<open>
  \<^verbatim>\<open>IndexStore<key_string>::Delete(const Variant &key, IdType id)\<close>. The counter is
  decremented when it is not zero; when it is zero afterwards the stored key moves to
  \<^verbatim>\<open>expiredStrings_\<close> and the entry is erased.
\<close>

fun Delete :: "Sizes \<Rightarrow> key_string IndexStore \<Rightarrow> Variant \<Rightarrow> IdType \<Rightarrow> key_string IndexStore" where
  "Delete L s VNull rid = s"
| "Delete L s (VString key) rid =
     (case str_map s (ks_view key) of
        None \<Rightarrow> s
      | Some (stored, cnt) \<Rightarrow>
          (let cnt' = (if cnt \<noteq> 0 then cnt - 1 else cnt)
           in if cnt' = 0
              then s\<lparr> memStat := (memStat s)\<lparr> dataSize :=
                          dataSize (memStat s) - sizeof_map_value L + sizeof_vec_value L \<rparr>,
                      expiredStringsMemStat := expiredStringsMemStat s
                          + (sizeof_base_key_string L + heap_size L stored),
                      expiredStrings := expiredStrings s @ [stored],
                      str_map := (str_map s)(ks_view key := None) \<rparr>
              else s\<lparr> str_map := (str_map s)(ks_view key \<mapsto> (stored, cnt')) \<rparr>))"

text \<open>\<^verbatim>\<open>IndexStore<T>::Delete(const VariantArray &keys, IdType id)\<close>.\<close>

definition Delete_keys :: "Sizes \<Rightarrow> key_string IndexStore \<Rightarrow> VariantArray \<Rightarrow> IdType \<Rightarrow> key_string IndexStore" where
  "Delete_keys L s keys rid =
     (if keys = [] then Delete L s VNull rid
      else fold (\<lambda>key s'. Delete L s' key rid) keys s)"

text \<open>
  \<^verbatim>\<open>IndexStore<key_string>::Upsert(const Variant &key, IdType)\<close>: the result is the
  Variant made from the key stored in the map and the updated index.
\<close>

fun Upsert :: "Sizes \<Rightarrow> key_string IndexStore \<Rightarrow> Variant \<Rightarrow> IdType \<Rightarrow> Variant \<times> key_string IndexStore" where
  "Upsert L s VNull rid = (VNull, s)"
| "Upsert L s (VString key) rid =
     (let (keyIt, s1) =
            (case str_map s (ks_view key) of
               None \<Rightarrow>
                 ((key, 0),
                  s\<lparr> str_map := (str_map s)(ks_view key \<mapsto> (key, 0)),
                     memStat := (memStat s)\<lparr> dataSize := dataSize (memStat s)
                       + (sizeof_map_value L + sizeof_base_key_string L + heap_size L key) \<rparr> \<rparr>)
             | Some e \<Rightarrow> (e, s));
          (stored, cnt) = keyIt
      in (VString stored, s1\<lparr> str_map := (str_map s1)(ks_view key \<mapsto> (stored, cnt + 1)) \<rparr>))"

text \<open>
  \<^verbatim>\<open>IndexStore<T>::Clone\<close>: the copy constructor, then \<^verbatim>\<open>std::swap\<close> of the two
  \<^verbatim>\<open>expiredStrings_\<close> vectors. The result is the clone and the source after the call.
\<close>

definition Clone :: "key_string IndexStore \<Rightarrow> key_string IndexStore \<times> key_string IndexStore" where
  "Clone this =
     (let ret = IndexStore_copy this
      in (ret\<lparr> expiredStrings := expiredStrings this \<rparr>,
          this\<lparr> expiredStrings := expiredStrings ret \<rparr>))"

text \<open>
  The constructor \<^verbatim>\<open>IndexStore(idef, payloadType, fields)\<close> of the string index: the base
  object from its arguments, the key type of a string Variant, and every other member
  empty.
\<close>

definition IndexStore_new :: "string \<Rightarrow> IndexOpts \<Rightarrow> nat \<Rightarrow> nat list \<Rightarrow> key_string IndexStore" where
  "IndexStore_new nm o' pt fs =
     \<lparr> name = nm, opts = o', keyType = KeyValueString, payloadType = pt, fieldsSet = fs,
       str_map = Map.empty, idx_data = [], memStat = \<lparr> dataSize = 0 \<rparr>,
       expiredStrings = [], expiredStringsMemStat = 0 \<rparr>"

subsection \<open>SelectKey\<close>

text \<open>
  The conditions of a query entry, and the only select option that \<^verbatim>\<open>SelectKey\<close> of the
  store index reads. A \<^verbatim>\<open>Comparator\<close> is built from the constructor's arguments, kept
  here as they are passed; \<open>cmp_rawData\<close> is \<^verbatim>\<open>idx_data.data()\<close>, or \<open>None\<close>
  for the null pointer passed when the column is empty. A \<^verbatim>\<open>SelectKeyResult\<close> is a
  vector of id sets together with the vector \<^verbatim>\<open>comparators_\<close>.
\<close>

datatype CondType =
  CondAny | CondEq | CondLt | CondLe | CondGt | CondGe | CondRange | CondSet | CondAllSet
  | CondEmpty | CondLike | CondDWithin

record SelectOpts =
  distinct :: bool

record 't Comparator =
  cmp_cond :: CondType
  cmp_type :: KeyValueType
  cmp_values :: VariantArray
  cmp_isArray :: bool
  cmp_distinct :: bool
  cmp_payloadType :: nat
  cmp_fields :: "nat list"
  cmp_rawData :: "'t list option"
  cmp_collateOpts :: nat

record 't SelectKeyResult =
  idsets :: "IdType list list"
  comparators :: "'t Comparator list"

text \<open>
  \<^verbatim>\<open>IndexStore<T>::SelectKey\<close>, for every key type \<^verbatim>\<open>T\<close>: an \<^verbatim>\<open>Error\<close> thrown is
  \<open>Inl\<close>, the returned \<^verbatim>\<open>SelectKeyResults\<close> (a vector holding the one result) is
  \<open>Inr\<close>. The sort id and the function context are not read, and the guard object of
  \<^verbatim>\<open>rdxCtx.BeforeIndexWork()\<close> has no part in the result.
\<close>

definition SelectKey ::
  "'t IndexStore \<Rightarrow> VariantArray \<Rightarrow> CondType \<Rightarrow> nat \<Rightarrow> SelectOpts
     \<Rightarrow> Error + 't SelectKeyResult list" where
  "SelectKey this keys condition sortId sopts =
     (if condition = CondEmpty \<and> \<not> IsArray (opts this) \<and> \<not> IsSparse (opts this)
      then Inl (Error errParams
                  ''The 'is NULL' condition is suported only by 'sparse' or 'array' indexes'')
      else if condition = CondAny \<and> \<not> IsArray (opts this) \<and> \<not> IsSparse (opts this)
                \<and> \<not> distinct sopts
      then Inl (Error errParams
                  ''The 'NOT NULL' condition is suported only by 'sparse' or 'array' indexes'')
      else Inr [\<lparr> idsets = [],
                  comparators =
                    [\<lparr> cmp_cond = condition, cmp_type = keyType this, cmp_values = keys,
                       cmp_isArray = IsArray (opts this), cmp_distinct = distinct sopts,
                       cmp_payloadType = payloadType this, cmp_fields = fieldsSet this,
                       cmp_rawData = (if length (idx_data this) \<noteq> 0 then Some (idx_data this)
                                      else None),
                       cmp_collateOpts = collateOpts (opts this) \<rparr>] \<rparr>])"

subsection \<open>Sequences of calls\<close>

text \<open>
  A caller's history on one index is a list of Upsert and Delete calls, run from left to
  right; \<open>Upserts k\<close> and \<open>Deletes k\<close> count the calls whose key has the characters
  \<open>k\<close>, and \<open>count_of\<close> reads the stored counter, 0 for a key that is not in the map.
\<close>

datatype call = CallUpsert Variant IdType | CallDelete Variant IdType

fun apply_call :: "Sizes \<Rightarrow> key_string IndexStore \<Rightarrow> call \<Rightarrow> key_string IndexStore" where
  "apply_call L s (CallUpsert key rid) = snd (Upsert L s key rid)"
| "apply_call L s (CallDelete key rid) = Delete L s key rid"

definition run :: "Sizes \<Rightarrow> key_string IndexStore \<Rightarrow> call list \<Rightarrow> key_string IndexStore" where
  "run L s cs = foldl (apply_call L) s cs"

fun has_chars :: "string \<Rightarrow> Variant \<Rightarrow> bool" where
  "has_chars k VNull = False"
| "has_chars k (VString ks) = (ks_view ks = k)"

fun is_Upsert_of :: "string \<Rightarrow> call \<Rightarrow> bool" where
  "is_Upsert_of k (CallUpsert key rid) = has_chars k key"
| "is_Upsert_of k (CallDelete key rid) = False"

fun is_Delete_of :: "string \<Rightarrow> call \<Rightarrow> bool" where
  "is_Delete_of k (CallUpsert key rid) = False"
| "is_Delete_of k (CallDelete key rid) = has_chars k key"

definition Upserts :: "string \<Rightarrow> call list \<Rightarrow> nat" where
  "Upserts k cs = length (filter (is_Upsert_of k) cs)"

definition Deletes :: "string \<Rightarrow> call list \<Rightarrow> nat" where
  "Deletes k cs = length (filter (is_Delete_of k) cs)"

definition count_of :: "key_string IndexStore \<Rightarrow> string \<Rightarrow> 32 word" where
  "count_of s k = (case str_map s k of None \<Rightarrow> 0 | Some (stored, cnt) \<Rightarrow> cnt)"

text \<open>An entry of the map, when there is one for \<open>k\<close>, has a counter other than zero.\<close>

definition nonzero_entry :: "key_string IndexStore \<Rightarrow> string \<Rightarrow> bool" where
  "nonzero_entry s k = (case str_map s k of None \<Rightarrow> True | Some (stored, cnt) \<Rightarrow> cnt \<noteq> 0)"

text \<open>The key with characters \<open>k\<close> is in the map before every call of the list and after the last.\<close>

fun stays_in_map :: "Sizes \<Rightarrow> key_string IndexStore \<Rightarrow> call list \<Rightarrow> string \<Rightarrow> bool" where
  "stays_in_map L s [] k = (str_map s k \<noteq> None)"
| "stays_in_map L s (c # cs) k = (str_map s k \<noteq> None \<and> stays_in_map L (apply_call L s c) cs k)"

text \<open>
  Sample values for closed instances of the theorems: the sizes of a 64-bit build (a map
  entry of 16 bytes, a pointer of 8, a string header of 40, a heap block as long as the
  string), and two key objects with the same characters.
\<close>

definition sizes64 :: Sizes where
  "sizes64 = \<lparr> sizeof_map_value = 16, sizeof_vec_value = 8, sizeof_base_key_string = 40,
               heap_size = (\<lambda>ks. of_nat (length (ks_view ks))) \<rparr>"

definition plain_opts :: IndexOpts where
  "plain_opts = \<lparr> IsArray = False, IsSparse = False, IsDense = False, collateOpts = 0 \<rparr>"

definition idx0 :: "key_string IndexStore" where
  "idx0 = IndexStore_new ''title'' plain_opts 0 [1]"

definition key_a1 :: key_string where
  "key_a1 = KeyString 1 ''a''"

definition key_a2 :: key_string where
  "key_a2 = KeyString 2 ''a''"

section \<open>RPC server: \<^verbatim>\<open>server/rpcserver.cc\<close>\<close>

subsection \<open>Items, transactions and the client's data\<close>

text \<open>
  Modelled from the spec: the classes \<^verbatim>\<open>Item\<close>, \<^verbatim>\<open>Transaction\<close> and
  \<^verbatim>\<open>Reindexer\<close> are declared outside these files. The spec describes a Transaction as
  an ordered vector of steps, each an item with its modification mode (or a query), whose
  \<^verbatim>\<open>NewItem\<close> returns an item bound to the namespace. The model keeps of the three
  classes what the server functions call:
  \<^item> an item has a status and a state token, and its decoders answer with an
    \<^verbatim>\<open>Error\<close> (\<open>FromJSON\<close>, \<open>FromCJSON\<close>, \<open>FromMsgPack\<close> are the item's answers, given
    the data); \<open>item_origin\<close> tells items of different \<^verbatim>\<open>NewItem\<close> calls apart;
  \<^item> a transaction is free when it has no implementation object
    (\<^verbatim>\<open>Transaction()\<close>); otherwise it has the namespace's name, the item its
    \<^verbatim>\<open>NewItem()\<close> returns, and the list of steps that \<^verbatim>\<open>Modify\<close> appends to;
  \<^item> a database handle answers \<^verbatim>\<open>NewTransaction(nsName)\<close> and \<^verbatim>\<open>NewItem(nsName)\<close>.
  The integer arguments \<^verbatim>\<open>format\<close> and \<^verbatim>\<open>mode\<close> of the RPC calls are taken after
  their \<^verbatim>\<open>static_cast\<close> to the enumerations.
\<close>

datatype UserRole = kRoleDataRead | kRoleDataWrite | kRoleDBAdmin | kRoleSystem

datatype ItemModifyMode = ModeUpdate | ModeInsert | ModeUpsert | ModeDelete


record Item =
  item_origin :: nat
  item_Status :: Error
  GetStateToken :: int
  FromJSON :: "string \<Rightarrow> bool \<Rightarrow> Error"
  FromCJSON :: "string \<Rightarrow> bool \<Rightarrow> Error"
  FromMsgPack :: "string \<Rightarrow> Error"
  precepts :: "string list"

record TransactionImpl =
  nsName :: string
  impl_NewItem :: Item
  steps :: "(Item \<times> ItemModifyMode) list"

record Transaction =
  impl :: "TransactionImpl option"
  tx_Status :: Error

definition Transaction_free :: Transaction where
  "Transaction_free = \<lparr> impl = None, tx_Status = Error errOK [] \<rparr>"

definition IsFree :: "Transaction \<Rightarrow> bool" where
  "IsFree tr = (impl tr = None)"




record Reindexer =
  NewTransaction :: "string \<Rightarrow> Transaction"
  NewItem :: "string \<Rightarrow> Item"

text \<open>
  \<^verbatim>\<open>RPCClientData\<close>, the state of one client connection: \<open>auth_GetDB role\<close> is what
  \<^verbatim>\<open>clientData->auth.GetDB(role, &db)\<close> answers (its status, and the pointer it
  stores), \<open>txs\<close> the vector of transactions and \<open>txCount\<close> the counter
  \<^verbatim>\<open>txStats->txCount\<close>. The functions below take the client data that the connection
  context holds (\<^verbatim>\<open>getClientDataSafe\<close> aborts the process when there is none).
\<close>

record RPCClientData =
  auth_GetDB :: "UserRole \<Rightarrow> Error \<times> Reindexer option"
  txs :: "Transaction list"
  txCount :: int

definition kMaxTxCount :: nat where
  "kMaxTxCount = 1024"

text \<open>\<^verbatim>\<open>RPCServer::getDB\<close>: a thrown \<^verbatim>\<open>Error\<close> is \<open>Inl\<close>.\<close>

definition getDB :: "RPCClientData \<Rightarrow> UserRole \<Rightarrow> Error + Reindexer" where
  "getDB data role =
     (let (status, db) = auth_GetDB data role
      in if \<not> ok status then Inl status
         else case db of
                Some d \<Rightarrow> Inr d
              | None \<Rightarrow> Inl (Error errParams ''Database is not opened, you should open it first''))"


text \<open>
  The search loop of \<^verbatim>\<open>addTx\<close>: the index of the first free transaction from position
  \<open>i\<close> on, or \<open>-1\<close>.
\<close>

fun first_free :: "Transaction list \<Rightarrow> nat \<Rightarrow> int" where
  "first_free [] i = - 1"
| "first_free (t # ts) i = (if IsFree t then int i else first_free ts (Suc i))"

text \<open>\<^verbatim>\<open>RPCServer::addTx\<close>: the new id and the client's data after the call.\<close>

definition addTx :: "RPCClientData \<Rightarrow> string \<Rightarrow> Error + int \<times> RPCClientData" where
  "addTx data ns =
     (case getDB data kRoleDataWrite of
        Inl e \<Rightarrow> Inl e
      | Inr db \<Rightarrow>
          (let txid = first_free (txs data) 0
           in if kMaxTxCount \<le> length (txs data) \<and> txid < 0
              then Inl (Error errForbidden ''Too many active transactions'')
              else let tr = NewTransaction db ns
                   in if \<not> ok (tx_Status tr) then Inl (tx_Status tr)
                      else let data1 = data\<lparr> txCount := txCount data + 1 \<rparr>
                           in if 0 \<le> txid
                              then Inr (txid, data1\<lparr> txs := (txs data1)[nat txid := tr] \<rparr>)
                              else Inr (int (length (txs data1 @ [tr])) - 1,
                                        data1\<lparr> txs := txs data1 @ [tr] \<rparr>)))"

text \<open>\<^verbatim>\<open>RPCServer::clearTx\<close>, with its \<^verbatim>\<open>uint64_t\<close> id.\<close>

definition clearTx :: "RPCClientData \<Rightarrow> nat \<Rightarrow> Error + RPCClientData" where
  "clearTx data txId =
     (if length (txs data) \<le> txId then Inl (Error errLogic ''Invalid tx id %d'')
      else Inr (data\<lparr> txCount := txCount data - 1,
                     txs := (txs data)[txId := Transaction_free] \<rparr>))"

text \<open>
  \<^verbatim>\<open>RPCServer::StartTransaction\<close>: the error it returns, the id it sends back with
  \<^verbatim>\<open>ctx.Return\<close> on success, and the client's data afterwards.
\<close>

definition StartTransaction :: "RPCClientData \<Rightarrow> string \<Rightarrow> Error \<times> int option \<times> RPCClientData" where
  "StartTransaction data ns =
     (case addTx data ns of
        Inl e \<Rightarrow> (e, None, data)
      | Inr (txid, data') \<Rightarrow> (Error errOK [], Some txid, data'))"

subsection \<open>Adding an item to a transaction\<close>




subsection \<open>Sample values of the RPC model\<close>

text \<open>
  For closed instances of the theorems: an item whose decoders all answer \<open>e\<close>; a
  transaction on the namespace \<open>''books''\<close> whose own item meets a tags mismatch; a
  database that knows only the namespace \<open>''books''\<close> and hands out items that decode;
  and a client that has this database open and no transaction yet.
\<close>

definition sample_item :: "nat \<Rightarrow> Error \<Rightarrow> Item" where
  "sample_item n e =
     \<lparr> item_origin = n, item_Status = Error errOK [], GetStateToken = 7,
       FromJSON = (\<lambda>d b. e), FromCJSON = (\<lambda>d b. e), FromMsgPack = (\<lambda>d. e), precepts = [] \<rparr>"

definition sample_tx :: "Error \<Rightarrow> Transaction" where
  "sample_tx e =
     \<lparr> impl = Some \<lparr> nsName = ''books'', impl_NewItem = sample_item 1 e, steps = [] \<rparr>,
       tx_Status = Error errOK [] \<rparr>"

definition sample_db :: "Error \<Rightarrow> Reindexer" where
  "sample_db e =
     \<lparr> NewTransaction = (\<lambda>ns. if ns = ''books'' then sample_tx (Error errTagsMissmatch ''tags'')
                             else \<lparr> impl = None,
                                    tx_Status = Error errNotFound ''Namespace does not exist'' \<rparr>),
       NewItem = (\<lambda>ns. sample_item 2 e) \<rparr>"

definition sample_client :: "Transaction list \<Rightarrow> Error \<Rightarrow> RPCClientData" where
  "sample_client ts e =
     \<lparr> auth_GetDB = (\<lambda>role. (Error errOK [], Some (sample_db e))), txs = ts, txCount = 0 \<rparr>"

section \<open>HTTP server: \<^verbatim>\<open>server/httpserver.cc\<close>\<close>

text \<open>
  The transactions of the HTTP surface live in \<^verbatim>\<open>txMap_\<close>, keyed by the transaction's
  id string; the model keeps the entries as an association list in the order the map
  iterates them. A point of \<^verbatim>\<open>TxDeadlineClock\<close> and the duration
  \<^verbatim>\<open>txIdleTimeout_\<close> are integers (ticks of the clock), and the clock reading
  \<open>now\<close> is an argument of the functions that call \<^verbatim>\<open>TxDeadlineClock::now()\<close>.
\<close>

record TxInfo =
  tx :: Transaction
  dbName :: string
  txDeadline :: int

record HTTPServer =
  txMap :: "(string \<times> TxInfo) list"
  txIdleTimeout :: int

text \<open>
  What \<^verbatim>\<open>removeExpiredTx\<close> asks of the database manager, per database name: the status
  of \<^verbatim>\<open>dbMgr_.OpenDatabase(name, ctx, false)\<close>, and whether \<^verbatim>\<open>ctx.GetDB(kRoleSystem, &db)\<close>
  leaves a database in \<^verbatim>\<open>db\<close>.
\<close>

record DBManager =
  OpenDatabase :: "string \<Rightarrow> Error"
  GetDB_nonnull :: "string \<Rightarrow> bool"

text \<open>
  \<^verbatim>\<open>HTTPServer::getTx\<close>. The comparison \<^verbatim>\<open>iequals\<close> of the two database names is a
  parameter (it is defined outside these files). A thrown status is \<open>Inl\<close>; otherwise
  the transaction and the server with the renewed deadline.
\<close>

definition HTTP_getTx ::
  "(string \<Rightarrow> string \<Rightarrow> bool) \<Rightarrow> int \<Rightarrow> HTTPServer \<Rightarrow> string \<Rightarrow> string
     \<Rightarrow> Error + Transaction \<times> HTTPServer" where
  "HTTP_getTx iequals now srv dbName' txId =
     (case map_of (txMap srv) txId of
        None \<Rightarrow> Inl (Error errNotFound ''Invalid tx id'')
      | Some found \<Rightarrow>
          if \<not> iequals (dbName found) dbName'
          then Inl (Error errLogic ''Unexpected database name for this tx'')
          else Inr (tx found,
                    srv\<lparr> txMap := AList.update txId
                             (found\<lparr> txDeadline := now + txIdleTimeout srv \<rparr>) (txMap srv) \<rparr>))"

text \<open>
  \<^verbatim>\<open>HTTPServer::removeExpiredTx\<close>: the loop over the map gives the entries that stay and,
  in the order of the calls, the transactions that \<^verbatim>\<open>db->RollBackTransaction\<close> was
  called on (with their ids).
\<close>

fun removeExpiredTx_loop ::
  "DBManager \<Rightarrow> int \<Rightarrow> (string \<times> TxInfo) list
     \<Rightarrow> (string \<times> TxInfo) list \<times> (string \<times> Transaction) list" where
  "removeExpiredTx_loop mgr now [] = ([], [])"
| "removeExpiredTx_loop mgr now ((txId, info) # rest) =
     (let (kept, rolled) = removeExpiredTx_loop mgr now rest
      in if txDeadline info \<le> now
         then (kept,
               (if ok (OpenDatabase mgr (dbName info)) \<and> GetDB_nonnull mgr (dbName info)
                then [(txId, tx info)] else []) @ rolled)
         else ((txId, info) # kept, rolled))"

definition removeExpiredTx ::
  "DBManager \<Rightarrow> int \<Rightarrow> HTTPServer \<Rightarrow> HTTPServer \<times> (string \<times> Transaction) list" where
  "removeExpiredTx mgr now srv =
     (let (kept, rolled) = removeExpiredTx_loop mgr now (txMap srv)
      in (srv\<lparr> txMap := kept \<rparr>, rolled))"

text \<open>
  Sample values: a manager that can open only the database \<open>''db''\<close>, and a server with
  an idle timeout of 30 ticks and three transactions, with deadlines 10, 50 and 20, the
  last one of a database that cannot be opened.
\<close>

definition sample_mgr :: DBManager where
  "sample_mgr =
     \<lparr> OpenDatabase = (\<lambda>n. if n = ''db'' then Error errOK [] else Error errNotFound ''Database is not found''),
       GetDB_nonnull = (\<lambda>n. n = ''db'') \<rparr>"

definition sample_srv :: HTTPServer where
  "sample_srv =
     \<lparr> txMap = [(''t1'', \<lparr> tx = sample_tx (Error errOK []), dbName = ''db'', txDeadline = 10 \<rparr>),
                (''t2'', \<lparr> tx = sample_tx (Error errOK []), dbName = ''db'', txDeadline = 50 \<rparr>),
                (''t3'', \<lparr> tx = sample_tx (Error errOK []), dbName = ''gone'', txDeadline = 20 \<rparr>)],
       txIdleTimeout = 30 \<rparr>"

section \<open>Namespace locks: \<^verbatim>\<open>core/namespace/namespaceimpl.h\<close>\<close>

text \<open>
  \<^verbatim>\<open>NamespaceImpl::Locker\<close> holds the namespace mutex, the storage mutex and the atomic
  flag \<^verbatim>\<open>readonly_\<close>. A call of one of its functions is modelled by the steps it takes
  on them, in program order, and what it gives back: the lock, or the \<^verbatim>\<open>Error\<close> it
  throws (then the local lock object is destroyed, which unlocks the mutex).
\<close>

datatype LockerStep =
  lock_shared_mtx | lock_unique_mtx | lock_storage_mtx | load_readonly
  | unlock_unique_mtx | unlock_storage_mtx

datatype LockT = RLockT | WLockT | StorageLockT

record Locker =
  readonly :: bool

definition Locker_new :: Locker where
  "Locker_new = \<lparr> readonly = False \<rparr>"

definition RLock :: "Locker \<Rightarrow> LockerStep list \<times> LockT" where
  "RLock l = ([lock_shared_mtx], RLockT)"

definition WLock :: "Locker \<Rightarrow> LockerStep list \<times> (Error + LockT)" where
  "WLock l =
     (if readonly l
      then ([lock_unique_mtx, load_readonly, unlock_unique_mtx],
            Inl (Error errNamespaceInvalidated ''NS invalidated''))
      else ([lock_unique_mtx, load_readonly], Inr WLockT))"

definition StorageLock :: "Locker \<Rightarrow> LockerStep list \<times> (Error + LockT)" where
  "StorageLock l =
     (if readonly l
      then ([lock_storage_mtx, load_readonly, unlock_storage_mtx],
            Inl (Error errNamespaceInvalidated ''NS invalidated''))
      else ([lock_storage_mtx, load_readonly], Inr StorageLockT))"

definition MarkReadOnly :: "Locker \<Rightarrow> Locker" where
  "MarkReadOnly l = l\<lparr> readonly := True \<rparr>"

section \<open>Fuzzy full-text index: \<^verbatim>\<open>core/index/indextext/fuzzyindextext.cc\<close>\<close>









section \<open>Theorems\<close>

lemmas sample_defs = idx0_def IndexStore_new_def key_a1_def key_a2_def sizes64_def plain_opts_def

subsection \<open>Store index\<close>

lemma Delete_absent:
  "str_map s (ks_view key) = None \<Longrightarrow> Delete L s (VString key) rid = s"
  by simp

lemma Delete_other:
  "ks_view key \<noteq> k \<Longrightarrow> str_map (Delete L s (VString key) rid) k = str_map s k"
  by (simp split: option.splits prod.splits add: Let_def)

lemma Upsert_other:
  "ks_view key \<noteq> k \<Longrightarrow> str_map (snd (Upsert L s (VString key) rid)) k = str_map s k"
  by (simp split: option.splits prod.splits add: Let_def)

lemma Upsert_absent:
  "str_map s (ks_view key) = None \<Longrightarrow>
     fst (Upsert L s (VString key) rid) = VString key
     \<and> str_map (snd (Upsert L s (VString key) rid)) (ks_view key) = Some (key, 1)"
  by (simp add: Let_def)

lemma Upsert_present:
  "str_map s (ks_view key) = Some (stored, cnt) \<Longrightarrow>
     fst (Upsert L s (VString key) rid) = VString stored
     \<and> str_map (snd (Upsert L s (VString key) rid)) (ks_view key) = Some (stored, cnt + 1)"
  by (simp add: Let_def)



lemma Delete_present:
  "str_map s (ks_view key) = Some (stored, cnt) \<Longrightarrow>
     (if cnt = 0 \<or> cnt = 1
      then str_map (Delete L s (VString key) rid) = (str_map s)(ks_view key := None)
           \<and> expiredStrings (Delete L s (VString key) rid) = expiredStrings s @ [stored]
      else str_map (Delete L s (VString key) rid) = (str_map s)(ks_view key \<mapsto> (stored, cnt - 1))
           \<and> expiredStrings (Delete L s (VString key) rid) = expiredStrings s)"
  by (auto simp add: Let_def)


declare Delete.simps [simp del] Upsert.simps [simp del]

lemma Delete_keeps_absent:
  assumes "str_map s k = None"
  shows "str_map (Delete L s key rid) k = None"
proof (cases key)
  case VNull
  with assms show ?thesis by (simp add: Delete.simps)
next
  case (VString ks)
  show ?thesis
  proof (cases "ks_view ks = k")
    case True
    with assms VString show ?thesis by (simp add: Delete_absent)
  next
    case False
    with assms VString show ?thesis by (simp add: Delete_other)
  qed
qed






lemma apply_call_other:
  "\<not> is_Upsert_of k c \<Longrightarrow> \<not> is_Delete_of k c \<Longrightarrow> str_map (apply_call L s c) k = str_map s k"
proof (cases c)
  case (CallUpsert key rid)
  assume "\<not> is_Upsert_of k c"
  with CallUpsert show ?thesis
    by (cases key) (simp_all add: Upsert_other Upsert.simps(1))
next
  case (CallDelete key rid)
  assume "\<not> is_Delete_of k c"
  with CallDelete show ?thesis
    by (cases key) (simp_all add: Delete_other Delete.simps(1))
qed

lemma apply_call_Upsert_count:
  assumes "is_Upsert_of k c" "nonzero_entry s k" "unat (count_of s k) + 1 < 2 ^ 32"
  shows "unat (count_of (apply_call L s c) k) = unat (count_of s k) + 1
         \<and> nonzero_entry (apply_call L s c) k"
proof -
  from assms(1) obtain key rid where c: "c = CallUpsert (VString key) rid" and k: "ks_view key = k"
    by (cases c; cases "case c of CallUpsert v r \<Rightarrow> v | CallDelete v r \<Rightarrow> v") auto
  have "count_of (apply_call L s c) k = count_of s k + 1"
    using c k by (cases "str_map s k") (auto simp: count_of_def Upsert_absent Upsert_present)
  moreover have "unat (count_of s k + 1) = unat (count_of s k) + 1"
    using assms(3) by (simp add: unat_word_ariths)
  ultimately show ?thesis
    using c k by (auto simp: nonzero_entry_def count_of_def split: option.splits)
qed

lemma apply_call_Delete_count:
  assumes "is_Delete_of k c" "nonzero_entry s k"
  shows "unat (count_of (apply_call L s c) k) = unat (count_of s k) - 1
         \<and> nonzero_entry (apply_call L s c) k"
proof -
  from assms(1) obtain key rid where c: "c = CallDelete (VString key) rid" and k: "ks_view key = k"
    by (cases c; cases "case c of CallUpsert v r \<Rightarrow> v | CallDelete v r \<Rightarrow> v") auto
  show ?thesis
  proof (cases "str_map s k")
    case None
    then show ?thesis using c k by (simp add: Delete_absent count_of_def nonzero_entry_def)
  next
    case (Some e)
    obtain stored cnt where e: "e = (stored, cnt)" by (cases e)
    with Some assms(2) have nz: "cnt \<noteq> 0" by (simp add: nonzero_entry_def)
    have m: "str_map s (ks_view key) = Some (stored, cnt)" using Some e k by simp
    show ?thesis
    proof (cases "cnt = 1")
      case True
      with Delete_present [OF m, of L rid] c k Some e show ?thesis
        by (simp add: count_of_def nonzero_entry_def)
    next
      case False
      with nz Delete_present [OF m, of L rid] c k Some e show ?thesis
        by (simp add: count_of_def nonzero_entry_def unat_minus_one)
    qed
  qed
qed


lemma run_Cons: "run L s (c # cs) = run L (apply_call L s c) cs"
  by (simp add: run_def)

lemma Upserts_Cons: "Upserts k (c # cs) = (if is_Upsert_of k c then 1 else 0) + Upserts k cs"
  by (simp add: Upserts_def)

lemma Deletes_Cons: "Deletes k (c # cs) = (if is_Delete_of k c then 1 else 0) + Deletes k cs"
  by (simp add: Deletes_def)

lemma not_both: "is_Upsert_of k c \<Longrightarrow> \<not> is_Delete_of k c"
  by (cases c) simp_all

lemma apply_call_other_count:
  assumes "\<not> is_Upsert_of k c" "\<not> is_Delete_of k c"
  shows "count_of (apply_call L s c) k = count_of s k"
    and "nonzero_entry (apply_call L s c) k = nonzero_entry s k"
  using apply_call_other [OF assms, of L s] by (simp_all add: count_of_def nonzero_entry_def)

lemma run_count_in_range:
  assumes "nonzero_entry s k"
    and "\<forall>n\<le>length cs. Deletes k (take n cs) \<le> unat (count_of s k) + Upserts k (take n cs)
            \<and> unat (count_of s k) + Upserts k (take n cs) - Deletes k (take n cs) < 2 ^ 32"
  shows "unat (count_of (run L s cs) k) + Deletes k cs = unat (count_of s k) + Upserts k cs
         \<and> nonzero_entry (run L s cs) k"
  using assms
proof (induction cs arbitrary: s)
  case Nil
  then show ?case by (simp add: run_def Upserts_def Deletes_def)
next
  case (Cons c cs)
  let ?s' = "apply_call L s c"
  let ?N = "unat (count_of s k)"
  have pre: "Deletes k (c # take n cs) \<le> ?N + Upserts k (c # take n cs)
      \<and> ?N + Upserts k (c # take n cs) - Deletes k (c # take n cs) < 2 ^ 32"
    if "n \<le> length cs" for n
  proof -
    from that have "Suc n \<le> length (c # cs)" by simp
    with Cons.prems(2) have "Deletes k (take (Suc n) (c # cs))
          \<le> ?N + Upserts k (take (Suc n) (c # cs))
        \<and> ?N + Upserts k (take (Suc n) (c # cs)) - Deletes k (take (Suc n) (c # cs)) < 2 ^ 32"
      by blast
    then show ?thesis by simp
  qed
  consider (ups) "is_Upsert_of k c" | (del) "is_Delete_of k c"
    | (other) "\<not> is_Upsert_of k c" "\<not> is_Delete_of k c" by blast
  then have step: "nonzero_entry ?s' k
      \<and> unat (count_of ?s' k) + (if is_Delete_of k c then 1 else 0)
          = ?N + (if is_Upsert_of k c then 1 else 0)
      \<and> (is_Delete_of k c \<longrightarrow> 1 \<le> ?N)"
  proof cases
    case ups
    then have nd: "\<not> is_Delete_of k c" by (rule not_both)
    from pre [of 0] ups nd have "?N + 1 < 2 ^ 32"
      by (simp add: Upserts_Cons Deletes_Cons Upserts_def Deletes_def)
    from apply_call_Upsert_count [OF ups Cons.prems(1) this, of L] ups nd
    show ?thesis by simp
  next
    case del
    then have nu: "\<not> is_Upsert_of k c" using not_both by blast
    from pre [of 0] del nu have "1 \<le> ?N"
      by (simp add: Upserts_Cons Deletes_Cons Upserts_def Deletes_def)
    with apply_call_Delete_count [OF del Cons.prems(1), of L] del nu
    show ?thesis by simp
  next
    case other
    with apply_call_other_count [OF other, of L s] Cons.prems(1) show ?thesis by simp
  qed
  have p2: "\<forall>n\<le>length cs. Deletes k (take n cs) \<le> unat (count_of ?s' k) + Upserts k (take n cs)
      \<and> unat (count_of ?s' k) + Upserts k (take n cs) - Deletes k (take n cs) < 2 ^ 32"
  proof (intro allI impI)
    fix n assume "n \<le> length cs"
    from pre [OF this] step
    show "Deletes k (take n cs) \<le> unat (count_of ?s' k) + Upserts k (take n cs)
      \<and> unat (count_of ?s' k) + Upserts k (take n cs) - Deletes k (take n cs) < 2 ^ 32"
      by (simp add: Upserts_Cons Deletes_Cons split: if_splits)
  qed
  from Cons.IH [OF _ p2] step
  have "unat (count_of (run L ?s' cs) k) + Deletes k cs = unat (count_of ?s' k) + Upserts k cs
        \<and> nonzero_entry (run L ?s' cs) k" by blast
  with step show ?case
    by (simp add: run_Cons Upserts_Cons Deletes_Cons split: if_splits)
qed

lemma apply_call_keeps_stored:
  assumes "str_map s k = Some (stored, cnt)" "str_map (apply_call L s c) k \<noteq> None"
  shows "\<exists>cnt'. str_map (apply_call L s c) k = Some (stored, cnt')"
proof -
  consider (ups) "is_Upsert_of k c" | (del) "is_Delete_of k c"
    | (other) "\<not> is_Upsert_of k c" "\<not> is_Delete_of k c" by blast
  then show ?thesis
  proof cases
    case ups
    then obtain key rid where c: "c = CallUpsert (VString key) rid" and k: "ks_view key = k"
      by (cases c; cases "case c of CallUpsert v r \<Rightarrow> v | CallDelete v r \<Rightarrow> v") auto
    with assms(1) Upsert_present [of s key stored cnt L rid] show ?thesis by simp
  next
    case del
    then obtain key rid where c: "c = CallDelete (VString key) rid" and k: "ks_view key = k"
      by (cases c; cases "case c of CallUpsert v r \<Rightarrow> v | CallDelete v r \<Rightarrow> v") auto
    with assms Delete_present [of s key stored cnt L rid] show ?thesis
      by (cases "cnt = 0 \<or> cnt = 1") simp_all
  next
    case other
    with assms(1) apply_call_other [OF other, of L s] show ?thesis by simp
  qed
qed

lemma run_keeps_stored:
  "stays_in_map L s cs k \<Longrightarrow> str_map s k = Some (stored, cnt) \<Longrightarrow>
     \<exists>cnt'. str_map (run L s cs) k = Some (stored, cnt')"
proof (induction cs arbitrary: s cnt)
  case Nil
  then show ?case by (simp add: run_def)
next
  case (Cons c cs)
  from Cons.prems(1) have st: "stays_in_map L (apply_call L s c) cs k" by simp
  then have "str_map (apply_call L s c) k \<noteq> None" by (cases cs) simp_all
  from apply_call_keeps_stored [OF Cons.prems(2) this]
  obtain cnt' where "str_map (apply_call L s c) k = Some (stored, cnt')" by blast
  from Cons.IH [OF st this] show ?case by (simp add: run_Cons)
qed


lemma sint_small:
  assumes "unat (w :: 32 word) < 2 ^ 31"
  shows "sint w = int (unat w)"
proof -
  from assms have "int (unat w) < 2 ^ 31" by (metis of_nat_less_iff of_nat_numeral of_nat_power)
  then have "uint w < 2 ^ 31" by simp
  moreover have "- (2 ^ 31) \<le> uint w"
    by (rule order_trans [of _ 0]) simp_all
  ultimately have "signed_take_bit 31 (uint w) = uint w"
    by (rule signed_take_bit_int_eq_self [rotated])
  then show ?thesis by (simp add: sint_uint)
qed




text \<open>
  C2, as amended. Upsert of a non-null key returns the key object held in \<^verbatim>\<open>str_map\<close>:
  an absent key is inserted with counter 0 and incremented to 1, and the caller's own key
  object comes back; for a key already in the map the stored object comes back and its
  counter is incremented. Two Upserts of keys with the same characters return the same
  object when the key stays in the map between them (no Delete in between brings its
  counter to zero). From a new index, when in every prefix of the history the Deletes of
  the key do not exceed its Upserts and their difference is below \<open>2^31\<close> (the count
  stays in the range of the C++ \<^verbatim>\<open>int\<close>), the stored counter is the number of Upserts
  minus the number of Deletes.
\<close>

theorem C2_Upsert_returns_stored_key:
  "(str_map s (ks_view key) = None \<longrightarrow>
      fst (Upsert L s (VString key) rid) = VString key
      \<and> str_map (snd (Upsert L s (VString key) rid)) (ks_view key) = Some (key, 0 + 1))
   \<and> (str_map t (ks_view key) = Some (stored, cnt) \<longrightarrow>
      fst (Upsert L t (VString key) rid) = VString stored
      \<and> str_map (snd (Upsert L t (VString key) rid)) (ks_view key) = Some (stored, cnt + 1))
   \<and> (ks_view key' = ks_view key
        \<and> stays_in_map L (snd (Upsert L s (VString key) rid)) cs (ks_view key) \<longrightarrow>
      fst (Upsert L (run L (snd (Upsert L s (VString key) rid)) cs) (VString key') rid')
        = fst (Upsert L s (VString key) rid))
   \<and> ((\<forall>n\<le>length ds. Deletes k (take n ds) \<le> Upserts k (take n ds)
                        \<and> Upserts k (take n ds) - Deletes k (take n ds) < 2 ^ 31) \<longrightarrow>
      sint (count_of (run L (IndexStore_new nm o' pt fs) ds) k)
        = int (Upserts k ds) - int (Deletes k ds))"
proof -
  let ?s1 = "snd (Upsert L s (VString key) rid)"
  have same: "fst (Upsert L (run L ?s1 cs) (VString key') rid') = fst (Upsert L s (VString key) rid)"
    if eq: "ks_view key' = ks_view key" and stay: "stays_in_map L ?s1 cs (ks_view key)"
  proof -
    obtain st c where first: "fst (Upsert L s (VString key) rid) = VString st"
      and m: "str_map ?s1 (ks_view key) = Some (st, c)"
    proof (cases "str_map s (ks_view key)")
      case None
      from Upsert_absent [OF this, of L rid] that show ?thesis by blast
    next
      case (Some e)
      then have "str_map s (ks_view key) = Some (fst e, snd e)" by simp
      from Upsert_present [OF this, of L rid] that show ?thesis by blast
    qed
    from run_keeps_stored [OF stay m] obtain c' where
      "str_map (run L ?s1 cs) (ks_view key') = Some (st, c')" using eq by auto
    from Upsert_present [OF this, of L rid'] first show ?thesis by simp
  qed
  have cnt: "sint (count_of (run L (IndexStore_new nm o' pt fs) ds) k)
        = int (Upserts k ds) - int (Deletes k ds)"
    if bal: "\<forall>n\<le>length ds. Deletes k (take n ds) \<le> Upserts k (take n ds)
                \<and> Upserts k (take n ds) - Deletes k (take n ds) < 2 ^ 31"
  proof -
    let ?s0 = "IndexStore_new nm o' pt fs"
    have z: "count_of ?s0 k = 0" "nonzero_entry ?s0 k"
      by (simp_all add: count_of_def nonzero_entry_def IndexStore_new_def)
    have "(2::nat) ^ 31 < 2 ^ 32" by simp
    with bal have "\<forall>n\<le>length ds. Deletes k (take n ds) \<le> Upserts k (take n ds)
                \<and> Upserts k (take n ds) - Deletes k (take n ds) < 2 ^ 32"
      by (meson less_trans)
    then have e: "unat (count_of (run L ?s0 ds) k) + Deletes k ds = Upserts k ds"
      using run_count_in_range [of ?s0 k ds L] z by simp
    from bal have "Upserts k ds - Deletes k ds < 2 ^ 31"
      by (metis order_refl take_all)
    with e have "unat (count_of (run L ?s0 ds) k) < 2 ^ 31" by linarith
    then have "sint (count_of (run L ?s0 ds) k) = int (unat (count_of (run L ?s0 ds) k))"
      by (rule sint_small)
    with e show ?thesis by linarith
  qed
  from same cnt Upsert_absent [of s key L rid] Upsert_present [of t key stored cnt L rid]
  show ?thesis by simp
qed

theorem C2_Upsert_returns_stored_key_witness:
  "str_map idx0 (ks_view key_a1) = None
   \<and> fst (Upsert sizes64 idx0 (VString key_a1) 1) = VString key_a1
   \<and> str_map (snd (Upsert sizes64 idx0 (VString key_a1) 1)) ''a'' = Some (key_a1, 1)
   \<and> fst (Upsert sizes64 (snd (Upsert sizes64 idx0 (VString key_a1) 1)) (VString key_a2) 2) = VString key_a1
   \<and> str_map (snd (Upsert sizes64 (snd (Upsert sizes64 idx0 (VString key_a1) 1)) (VString key_a2) 2)) ''a''
       = Some (key_a1, 2)
   \<and> stays_in_map sizes64 (snd (Upsert sizes64 idx0 (VString key_a1) 1))
        [CallUpsert (VString key_a2) 2, CallDelete (VString key_a1) 3] ''a''
   \<and> fst (Upsert sizes64
          (run sizes64 (snd (Upsert sizes64 idx0 (VString key_a1) 1))
             [CallUpsert (VString key_a2) 2, CallDelete (VString key_a1) 3])
          (VString key_a2) 4) = VString key_a1
   \<and> Upserts ''a'' [CallUpsert (VString key_a1) 1, CallUpsert (VString key_a2) 2, CallDelete (VString key_a1) 3] = 2
   \<and> Deletes ''a'' [CallUpsert (VString key_a1) 1, CallUpsert (VString key_a2) 2, CallDelete (VString key_a1) 3] = 1
   \<and> sint (count_of (run sizes64 idx0
          [CallUpsert (VString key_a1) 1, CallUpsert (VString key_a2) 2, CallDelete (VString key_a1) 3]) ''a'') = 1"
proof -
  let ?t = "snd (Upsert sizes64 idx0 (VString key_a1) 1)"
  let ?cs = "[CallUpsert (VString key_a2) 2, CallDelete (VString key_a1) 3]"
  let ?ds = "[CallUpsert (VString key_a1) 1, CallUpsert (VString key_a2) 2, CallDelete (VString key_a1) 3]"
  have v: "ks_view key_a1 = ''a''" "ks_view key_a2 = ''a''"
    by (simp_all add: key_a1_def key_a2_def)
  have h1: "str_map idx0 (ks_view key_a1) = None"
    by (simp add: idx0_def IndexStore_new_def)
  have h2: "str_map ?t (ks_view key_a1) = Some (key_a1, 1)"
    using Upsert_absent [OF h1] by simp
  have h3: "stays_in_map sizes64 ?t ?cs (ks_view key_a1)"
    by (simp add: sample_defs Upsert.simps Delete.simps Let_def)
  have n: "Upserts ''a'' ?ds = 2" "Deletes ''a'' ?ds = 1"
    by (simp_all add: Upserts_def Deletes_def v)
  have h4: "\<forall>n\<le>length ?ds. Deletes ''a'' (take n ?ds) \<le> Upserts ''a'' (take n ?ds)
              \<and> Upserts ''a'' (take n ?ds) - Deletes ''a'' (take n ?ds) < 2 ^ 31"
  proof (intro allI impI)
    fix n :: nat
    assume "n \<le> length ?ds"
    then consider "n = 0" | "n = 1" | "n = 2" | "n = 3" by fastforce
    then show "Deletes ''a'' (take n ?ds) \<le> Upserts ''a'' (take n ?ds)
              \<and> Upserts ''a'' (take n ?ds) - Deletes ''a'' (take n ?ds) < 2 ^ 31"
      by cases (simp_all add: Upserts_def Deletes_def v)
  qed
  from C2_Upsert_returns_stored_key
    [where s = idx0 and key = key_a1 and L = sizes64 and rid = 1 and t = ?t and stored = key_a1
       and cnt = 1 and key' = key_a2 and cs = ?cs and rid' = 4 and k = "''a''" and ds = ?ds
       and nm = "''title''" and o' = plain_opts and pt = 0 and fs = "[1]"]
    C2_Upsert_returns_stored_key
    [where s = idx0 and key = key_a2 and L = sizes64 and rid = 2 and t = ?t and stored = key_a1
       and cnt = 1 and key' = key_a2 and cs = "[]" and rid' = 4 and k = "''a''" and ds = "[]"
       and nm = "''title''" and o' = plain_opts and pt = 0 and fs = "[1]"]
    h1 h2 h3 h4 n v
  show ?thesis by (simp add: idx0_def)
qed

text \<open>
  The claim C2 as first stated fails on two histories from a new index. After a Delete
  and then an Upsert of the key \<open>''a''\<close> the counter is 1, not 1 - 1 = 0, since the
  Delete of the absent key did nothing. And after Upsert, Delete, Upsert of \<open>''a''\<close> the
  second Upsert returns a different key object from the first: the Delete moved the
  first one to \<^verbatim>\<open>expiredStrings_\<close>.
\<close>

theorem C2_counterexample:
  "Upserts ''a'' [CallDelete (VString key_a1) 1, CallUpsert (VString key_a1) 1] = 1
   \<and> Deletes ''a'' [CallDelete (VString key_a1) 1, CallUpsert (VString key_a1) 1] = 1
   \<and> sint (count_of (run sizes64 idx0
        [CallDelete (VString key_a1) 1, CallUpsert (VString key_a1) 1]) ''a'') = 1
   \<and> ks_view key_a1 = ks_view key_a2
   \<and> fst (Upsert sizes64 idx0 (VString key_a1) 1) = VString key_a1
   \<and> fst (Upsert sizes64
          (run sizes64 idx0 [CallUpsert (VString key_a1) 1, CallDelete (VString key_a1) 1])
          (VString key_a2) 1) = VString key_a2
   \<and> fst (Upsert sizes64
          (run sizes64 idx0 [CallUpsert (VString key_a1) 1, CallDelete (VString key_a1) 1])
          (VString key_a2) 1) \<noteq> fst (Upsert sizes64 idx0 (VString key_a1) 1)
   \<and> sint (count_of (run sizes64 idx0
        [CallDelete (VString key_a1) 1, CallUpsert (VString key_a1) 1]) ''a'')
       \<noteq> int (Upserts ''a'' [CallDelete (VString key_a1) 1, CallUpsert (VString key_a1) 1])
         - int (Deletes ''a'' [CallDelete (VString key_a1) 1, CallUpsert (VString key_a1) 1])"
  by (simp add: sample_defs Upserts_def Deletes_def run_def count_of_def
      Upsert.simps Delete.simps Let_def)

text \<open>
  C4. Clone of a string store index: the clone holds the source's
  \<^verbatim>\<open>expiredStrings_\<close> of before the call, the source's is empty afterwards, the
  clone's \<^verbatim>\<open>str_map\<close>, \<^verbatim>\<open>idx_data\<close> and \<^verbatim>\<open>memStat_\<close> are the source's, and nothing
  else of the source changes.
\<close>

theorem C4_Clone_swaps_expiredStrings:
  "expiredStrings (fst (Clone this)) = expiredStrings this
   \<and> expiredStrings (snd (Clone this)) = []
   \<and> str_map (fst (Clone this)) = str_map this
   \<and> idx_data (fst (Clone this)) = idx_data this
   \<and> memStat (fst (Clone this)) = memStat this
   \<and> snd (Clone this) = this\<lparr> expiredStrings := [] \<rparr>"
  by (simp add: Clone_def IndexStore_copy_def Let_def)


text \<open>
  C3, as amended. For every store index, SelectKey with \<^verbatim>\<open>CondEmpty\<close> on an index that
  is neither array nor sparse fails with \<^verbatim>\<open>errParams\<close>; SelectKey with \<^verbatim>\<open>CondAny\<close> on
  such an index fails with \<^verbatim>\<open>errParams\<close> unless the select options ask for distinct
  values; in every other case the result holds no id set and exactly one Comparator, built
  for the condition and the keys of the call.
\<close>

theorem C3_SelectKey_errParams_or_comparator:
  "(condition = CondEmpty \<and> \<not> IsArray (opts this) \<and> \<not> IsSparse (opts this) \<longrightarrow>
      (\<exists>msg. SelectKey this keys condition sortId sopts = Inl (Error errParams msg)))
   \<and> (condition = CondAny \<and> \<not> IsArray (opts this) \<and> \<not> IsSparse (opts this)
        \<and> \<not> distinct sopts \<longrightarrow>
      (\<exists>msg. SelectKey this keys condition sortId sopts = Inl (Error errParams msg)))
   \<and> (\<not> (condition = CondEmpty \<and> \<not> IsArray (opts this) \<and> \<not> IsSparse (opts this))
        \<and> \<not> (condition = CondAny \<and> \<not> IsArray (opts this) \<and> \<not> IsSparse (opts this)
               \<and> \<not> distinct sopts) \<longrightarrow>
      (\<exists>c. SelectKey this keys condition sortId sopts = Inr [\<lparr> idsets = [], comparators = [c] \<rparr>]
           \<and> cmp_cond c = condition \<and> cmp_values c = keys \<and> cmp_distinct c = distinct sopts))"
  by (simp add: SelectKey_def)

theorem C3_SelectKey_errParams_or_comparator_witness:
  "\<not> IsArray (opts idx0) \<and> \<not> IsSparse (opts idx0)
   \<and> (\<exists>msg. SelectKey idx0 [] CondEmpty 0 \<lparr> distinct = True \<rparr> = Inl (Error errParams msg))
   \<and> (\<exists>msg. SelectKey idx0 [] CondAny 0 \<lparr> distinct = False \<rparr> = Inl (Error errParams msg))
   \<and> (\<exists>c. SelectKey idx0 [VString key_a1] CondEq 0 \<lparr> distinct = False \<rparr>
            = Inr [\<lparr> idsets = [], comparators = [c] \<rparr>]
          \<and> cmp_cond c = CondEq \<and> cmp_values c = [VString key_a1])"
proof -
  have h: "\<not> IsArray (opts idx0)" "\<not> IsSparse (opts idx0)"
    by (simp_all add: sample_defs)
  from C3_SelectKey_errParams_or_comparator
      [where this = idx0 and keys = "[]" and condition = CondEmpty and sortId = 0
         and sopts = "\<lparr> distinct = True \<rparr>"]
    C3_SelectKey_errParams_or_comparator
      [where this = idx0 and keys = "[]" and condition = CondAny and sortId = 0
         and sopts = "\<lparr> distinct = False \<rparr>"]
    C3_SelectKey_errParams_or_comparator
      [where this = idx0 and keys = "[VString key_a1]" and condition = CondEq and sortId = 0
         and sopts = "\<lparr> distinct = False \<rparr>"]
    h
  show ?thesis by simp blast
qed

text \<open>
  The claim C3 as first stated fails for \<^verbatim>\<open>CondAny\<close> with the distinct option set: on an
  index that is neither array nor sparse the call does not fail, it returns a Comparator.
\<close>

theorem C3_counterexample:
  "\<not> IsArray (opts idx0) \<and> \<not> IsSparse (opts idx0)
   \<and> SelectKey idx0 [] CondAny 0 \<lparr> distinct = True \<rparr>
       = Inr [\<lparr> idsets = [],
                comparators =
                  [\<lparr> cmp_cond = CondAny, cmp_type = KeyValueString, cmp_values = [],
                     cmp_isArray = False, cmp_distinct = True, cmp_payloadType = 0,
                     cmp_fields = [1], cmp_rawData = None, cmp_collateOpts = 0 \<rparr>] \<rparr>]"
  by (simp add: SelectKey_def sample_defs)

subsection \<open>RPC server\<close>

lemma first_free_none: "(first_free ts i < 0) = (\<forall>t\<in>set ts. \<not> IsFree t)"
  by (induction ts arbitrary: i) auto

lemma first_free_some:
  "\<exists>t\<in>set ts. IsFree t \<Longrightarrow>
     \<exists>j<length ts. first_free ts i = int (i + j) \<and> IsFree (ts ! j) \<and> (\<forall>m<j. \<not> IsFree (ts ! m))"
proof (induction ts arbitrary: i)
  case Nil
  then show ?case by simp
next
  case (Cons t ts)
  show ?case
  proof (cases "IsFree t")
    case True
    then show ?thesis by (intro exI [of _ 0]) simp
  next
    case False
    with Cons.prems have "\<exists>t\<in>set ts. IsFree t" by simp
    from Cons.IH [OF this, of "Suc i"] obtain j where
      j: "j < length ts" "first_free ts (Suc i) = int (Suc i + j)" "IsFree (ts ! j)"
         "\<forall>m<j. \<not> IsFree (ts ! m)" by blast
    have "\<forall>m<Suc j. \<not> IsFree ((t # ts) ! m)"
      using False j(4) by (auto simp: nth_Cons split: nat.splits)
    with j False show ?thesis by (intro exI [of _ "Suc j"]) simp
  qed
qed

lemma addTx_full:
  assumes "getDB data kRoleDataWrite = Inr db" "kMaxTxCount \<le> length (txs data)"
    "\<forall>t\<in>set (txs data). \<not> IsFree t"
  shows "addTx data ns = Inl (Error errForbidden ''Too many active transactions'')"
  using assms first_free_none [of "txs data" 0] by (simp add: addTx_def Let_def)

lemma addTx_reuse:
  assumes "getDB data kRoleDataWrite = Inr db" "ok (tx_Status (NewTransaction db ns))"
    "\<exists>t\<in>set (txs data). IsFree t"
  shows "\<exists>i<length (txs data). IsFree (txs data ! i) \<and> (\<forall>m<i. \<not> IsFree (txs data ! m))
     \<and> addTx data ns = Inr (int i, data\<lparr> txCount := txCount data + 1,
                                          txs := (txs data)[i := NewTransaction db ns] \<rparr>)"
proof -
  from first_free_some [OF assms(3), of 0] obtain j where
    j: "j < length (txs data)" "first_free (txs data) 0 = int j" "IsFree (txs data ! j)"
       "\<forall>m<j. \<not> IsFree (txs data ! m)" by auto
  have "addTx data ns = Inr (int j, data\<lparr> txCount := txCount data + 1,
                                          txs := (txs data)[j := NewTransaction db ns] \<rparr>)"
    using assms(1,2) j(2) by (simp add: addTx_def Let_def)
  with j show ?thesis by blast
qed

lemma addTx_append:
  assumes "getDB data kRoleDataWrite = Inr db" "ok (tx_Status (NewTransaction db ns))"
    "\<forall>t\<in>set (txs data). \<not> IsFree t" "length (txs data) < kMaxTxCount"
  shows "addTx data ns = Inr (int (length (txs data)),
            data\<lparr> txCount := txCount data + 1, txs := txs data @ [NewTransaction db ns] \<rparr>)"
  using assms first_free_none [of "txs data" 0] by (simp add: addTx_def Let_def)

lemma addTx_errors:
  "(getDB data kRoleDataWrite = Inl e \<longrightarrow> addTx data ns = Inl e)
   \<and> (getDB data kRoleDataWrite = Inr db
        \<and> \<not> (kMaxTxCount \<le> length (txs data) \<and> (\<forall>t\<in>set (txs data). \<not> IsFree t))
        \<and> \<not> ok (tx_Status (NewTransaction db ns)) \<longrightarrow>
      addTx data ns = Inl (tx_Status (NewTransaction db ns)))"
  using first_free_none [of "txs data" 0] by (auto simp add: addTx_def Let_def)

lemma addTx_bound:
  assumes "addTx data ns = Inr (i, data')" "length (txs data) \<le> kMaxTxCount"
  shows "length (txs data') \<le> kMaxTxCount"
  using assms by (auto simp add: addTx_def Let_def split: sum.splits if_splits)

lemma clearTx_frees:
  assumes "txId < length (txs data)"
  shows "clearTx data txId = Inr (data\<lparr> txCount := txCount data - 1,
                                       txs := (txs data)[txId := Transaction_free] \<rparr>)"
    and "IsFree ((txs data)[txId := Transaction_free] ! txId)"
  using assms by (simp_all add: clearTx_def IsFree_def Transaction_free_def)


lemma clearTx_then_addTx:
  assumes "txId < length (txs data)" "getDB data kRoleDataWrite = Inr db"
    "ok (tx_Status (NewTransaction db ns))"
  shows "\<exists>j\<le>txId. \<exists>d. addTx (data\<lparr> txCount := txCount data - 1,
                                       txs := (txs data)[txId := Transaction_free] \<rparr>) ns
                          = Inr (int j, d)
           \<and> ((\<forall>m<txId. \<not> IsFree (txs data ! m)) \<longrightarrow> j = txId)"
proof -
  let ?d = "data\<lparr> txCount := txCount data - 1, txs := (txs data)[txId := Transaction_free] \<rparr>"
  have g: "getDB ?d kRoleDataWrite = Inr db" using assms(2) by (simp add: getDB_def)
  have f: "IsFree (txs ?d ! txId)" using assms(1) by (simp add: IsFree_def Transaction_free_def)
  moreover have "txs ?d ! txId \<in> set (txs ?d)"
    using assms(1) by (intro nth_mem) simp
  ultimately have "\<exists>t\<in>set (txs ?d). IsFree t" by blast
  from addTx_reuse [OF g assms(3) this] obtain i where
    i: "i < length (txs ?d)" "IsFree (txs ?d ! i)" "\<forall>m<i. \<not> IsFree (txs ?d ! m)"
       "addTx ?d ns = Inr (int i, ?d\<lparr> txCount := txCount ?d + 1,
                                      txs := (txs ?d)[i := NewTransaction db ns] \<rparr>)" by blast
  from i(3) f have le: "i \<le> txId" by (meson not_le_imp_less)
  have "i = txId" if low: "\<forall>m<txId. \<not> IsFree (txs data ! m)"
  proof (rule ccontr)
    assume "i \<noteq> txId"
    with le have lt: "i < txId" by simp
    with i(2) have "IsFree (txs data ! i)" by simp
    with low lt show False by blast
  qed
  with le i(4) show ?thesis by blast
qed


text \<open>
  C6, as amended. The transactions of one RPC client are bounded by \<open>kMaxTxCount = 1024\<close>.
  With the database open for writing, \<^verbatim>\<open>addTx\<close> (and so \<^verbatim>\<open>StartTransaction\<close>) fails
  with \<^verbatim>\<open>errForbidden\<close> when the table holds at least 1024 slots and none is free.
  Otherwise, when \<^verbatim>\<open>NewTransaction\<close> gives a transaction with an OK status, the new
  transaction goes into the lowest free slot and that index is the id, or, with no free
  slot, it is appended and the id is the old size. An error of \<^verbatim>\<open>getDB\<close> or a
  transaction status that is not OK is thrown instead. A table of at most 1024 slots
  stays so. \<^verbatim>\<open>clearTx\<close> on a slot of the table frees it and keeps the size, and the
  next successful \<^verbatim>\<open>addTx\<close> returns an id not above it: the same id when no lower slot
  was free.
\<close>

theorem C6_addTx_bounded:
  "(getDB data kRoleDataWrite = Inr db \<and> kMaxTxCount \<le> length (txs data)
      \<and> (\<forall>t\<in>set (txs data). \<not> IsFree t) \<longrightarrow>
        addTx data ns = Inl (Error errForbidden ''Too many active transactions'')
        \<and> fst (StartTransaction data ns) = Error errForbidden ''Too many active transactions'')
   \<and> (getDB data kRoleDataWrite = Inr db \<and> ok (tx_Status (NewTransaction db ns))
      \<and> (\<exists>t\<in>set (txs data). IsFree t) \<longrightarrow>
        (\<exists>i<length (txs data). IsFree (txs data ! i) \<and> (\<forall>m<i. \<not> IsFree (txs data ! m))
           \<and> addTx data ns = Inr (int i, data\<lparr> txCount := txCount data + 1,
                                                txs := (txs data)[i := NewTransaction db ns] \<rparr>)))
   \<and> (getDB data kRoleDataWrite = Inr db \<and> ok (tx_Status (NewTransaction db ns))
      \<and> (\<forall>t\<in>set (txs data). \<not> IsFree t) \<and> length (txs data) < kMaxTxCount \<longrightarrow>
        addTx data ns = Inr (int (length (txs data)),
            data\<lparr> txCount := txCount data + 1, txs := txs data @ [NewTransaction db ns] \<rparr>))
   \<and> (getDB data kRoleDataWrite = Inl e \<longrightarrow> addTx data ns = Inl e)
   \<and> (getDB data kRoleDataWrite = Inr db
      \<and> \<not> (kMaxTxCount \<le> length (txs data) \<and> (\<forall>t\<in>set (txs data). \<not> IsFree t))
      \<and> \<not> ok (tx_Status (NewTransaction db ns)) \<longrightarrow>
        addTx data ns = Inl (tx_Status (NewTransaction db ns)))
   \<and> (addTx data ns = Inr (i, data') \<and> length (txs data) \<le> kMaxTxCount \<longrightarrow>
        length (txs data') \<le> kMaxTxCount)
   \<and> kMaxTxCount = 1024
   \<and> (txId < length (txs data) \<longrightarrow>
        (\<exists>cleared. clearTx data txId = Inr cleared
           \<and> length (txs cleared) = length (txs data) \<and> IsFree (txs cleared ! txId)
           \<and> (getDB data kRoleDataWrite = Inr db \<and> ok (tx_Status (NewTransaction db ns)) \<longrightarrow>
                (\<exists>j\<le>txId. \<exists>d. addTx cleared ns = Inr (int j, d)
                    \<and> ((\<forall>m<txId. \<not> IsFree (txs data ! m)) \<longrightarrow> j = txId)))))"
proof -
  have full: "addTx data ns = Inl (Error errForbidden ''Too many active transactions'')
        \<and> fst (StartTransaction data ns) = Error errForbidden ''Too many active transactions''"
    if "getDB data kRoleDataWrite = Inr db" "kMaxTxCount \<le> length (txs data)"
      "\<forall>t\<in>set (txs data). \<not> IsFree t"
    using addTx_full [OF that] by (simp add: StartTransaction_def)
  have clr: "\<exists>cleared. clearTx data txId = Inr cleared
           \<and> length (txs cleared) = length (txs data) \<and> IsFree (txs cleared ! txId)
           \<and> (getDB data kRoleDataWrite = Inr db \<and> ok (tx_Status (NewTransaction db ns)) \<longrightarrow>
                (\<exists>j\<le>txId. \<exists>d. addTx cleared ns = Inr (int j, d)
                    \<and> ((\<forall>m<txId. \<not> IsFree (txs data ! m)) \<longrightarrow> j = txId)))"
    if lt: "txId < length (txs data)"
  proof -
    let ?d = "data\<lparr> txCount := txCount data - 1, txs := (txs data)[txId := Transaction_free] \<rparr>"
    have "clearTx data txId = Inr ?d" "IsFree (txs ?d ! txId)" "length (txs ?d) = length (txs data)"
      using clearTx_frees [OF lt] by simp_all
    moreover have "getDB data kRoleDataWrite = Inr db \<and> ok (tx_Status (NewTransaction db ns)) \<longrightarrow>
                (\<exists>j\<le>txId. \<exists>d. addTx ?d ns = Inr (int j, d)
                    \<and> ((\<forall>m<txId. \<not> IsFree (txs data ! m)) \<longrightarrow> j = txId))"
      using clearTx_then_addTx [OF lt, of db ns] by blast
    ultimately show ?thesis by blast
  qed
  have k: "kMaxTxCount = 1024" by (simp add: kMaxTxCount_def)
  from full addTx_reuse [of data db ns] addTx_append [of data db ns] addTx_errors [of data e ns db]
    addTx_bound [of data ns i data'] k clr
  show ?thesis by blast
qed


lemmas rpc_sample_defs = sample_client_def sample_db_def sample_tx_def sample_item_def
  Transaction_free_def IsFree_def ok_def getDB_def

theorem C6_addTx_bounded_witness:
  "length (txs (sample_client (replicate 1024 (sample_tx (Error errOK []))) (Error errOK []))) = 1024
   \<and> addTx (sample_client (replicate 1024 (sample_tx (Error errOK []))) (Error errOK [])) ''books''
       = Inl (Error errForbidden ''Too many active transactions'')
   \<and> (\<exists>d. addTx (sample_client [sample_tx (Error errOK []), Transaction_free, Transaction_free]
                    (Error errOK [])) ''books'' = Inr (1, d))
   \<and> (\<exists>d. addTx (sample_client [sample_tx (Error errOK [])] (Error errOK [])) ''books'' = Inr (1, d)
          \<and> length (txs d) = 2)
   \<and> (\<exists>cleared d. clearTx (sample_client [sample_tx (Error errOK []), sample_tx (Error errOK [])]
                      (Error errOK [])) 0 = Inr cleared
          \<and> IsFree (txs cleared ! 0) \<and> addTx cleared ''books'' = Inr (0, d))"
proof -
  let ?e = "Error errOK []"
  let ?full = "sample_client (replicate 1024 (sample_tx ?e)) ?e"
  let ?holes = "sample_client [sample_tx ?e, Transaction_free, Transaction_free] ?e"
  let ?one = "sample_client [sample_tx ?e] ?e"
  let ?two = "sample_client [sample_tx ?e, sample_tx ?e] ?e"
  have db: "\<And>ts. getDB (sample_client ts ?e) kRoleDataWrite = Inr (sample_db ?e)"
    by (simp add: getDB_def sample_client_def ok_def)
  have tr: "ok (tx_Status (NewTransaction (sample_db ?e) ''books''))"
    by (simp add: rpc_sample_defs)
  have busy: "\<not> IsFree (sample_tx ?e)" and free: "IsFree Transaction_free"
    by (simp_all add: rpc_sample_defs)
  have f1: "kMaxTxCount \<le> length (txs ?full)" "\<forall>t\<in>set (txs ?full). \<not> IsFree t"
    "length (txs ?full) = 1024"
    using busy by (simp_all add: sample_client_def kMaxTxCount_def)
  have f2: "\<exists>t\<in>set (txs ?holes). IsFree t" using free by (simp add: sample_client_def)
  have f3: "\<forall>t\<in>set (txs ?one). \<not> IsFree t" "length (txs ?one) < kMaxTxCount"
    using busy by (simp_all add: sample_client_def kMaxTxCount_def)
  have f4: "(0::nat) < length (txs ?two)" by (simp add: sample_client_def)
  note inst = C6_addTx_bounded [where db = "sample_db ?e" and ns = "''books''" and e = ?e
      and i = 0 and txId = 0]
  have c1: "addTx ?full ''books'' = Inl (Error errForbidden ''Too many active transactions'')"
    using inst [where data = ?full and data' = ?full, THEN conjunct1] db f1(1,2) by blast
  have c2: "\<exists>d. addTx ?holes ''books'' = Inr (1, d)"
  proof -
    from inst [where data = ?holes and data' = ?holes, THEN conjunct2, THEN conjunct1] db tr f2
    obtain i where
      i: "i < length (txs ?holes)" "IsFree (txs ?holes ! i)" "\<forall>m<i. \<not> IsFree (txs ?holes ! m)"
      and r: "addTx ?holes ''books'' = Inr (int i, ?holes\<lparr> txCount := txCount ?holes + 1,
            txs := (txs ?holes)[i := NewTransaction (sample_db ?e) ''books''] \<rparr>)"
      by blast
    from i(1) have "i = 0 \<or> i = 1 \<or> i = 2" by (auto simp: sample_client_def)
    moreover have "i \<noteq> 0"
    proof
      assume "i = 0"
      with i(2) have "IsFree (txs ?holes ! 0)" by simp
      with busy show False by (simp add: sample_client_def)
    qed
    moreover have "i \<noteq> 2"
    proof
      assume "i = 2"
      with i(3) have "\<not> IsFree (txs ?holes ! 1)" by simp
      with free show False by (simp add: sample_client_def)
    qed
    ultimately have "i = 1" by blast
    with r show ?thesis by simp
  qed
  have c3: "\<exists>d. addTx ?one ''books'' = Inr (1, d) \<and> length (txs d) = 2"
  proof -
    from inst [where data = ?one and data' = ?one, THEN conjunct2, THEN conjunct2, THEN conjunct1]
      db tr f3
    have "addTx ?one ''books'' = Inr (int (length (txs ?one)),
        ?one\<lparr> txCount := txCount ?one + 1,
               txs := txs ?one @ [NewTransaction (sample_db ?e) ''books''] \<rparr>)" by blast
    moreover have "length (txs ?one) = 1" by (simp add: sample_client_def)
    ultimately show ?thesis by simp
  qed
  have c4: "\<exists>cleared d. clearTx ?two 0 = Inr cleared
          \<and> IsFree (txs cleared ! 0) \<and> addTx cleared ''books'' = Inr (0, d)"
  proof -
    from inst [where data = ?two and data' = ?two, THEN conjunct2, THEN conjunct2, THEN conjunct2,
        THEN conjunct2, THEN conjunct2, THEN conjunct2, THEN conjunct2] f4
    obtain cleared where cl: "clearTx ?two 0 = Inr cleared" "IsFree (txs cleared ! 0)"
      and nx: "getDB ?two kRoleDataWrite = Inr (sample_db ?e)
                 \<and> ok (tx_Status (NewTransaction (sample_db ?e) ''books'')) \<longrightarrow>
               (\<exists>j\<le>0. \<exists>d. addTx cleared ''books'' = Inr (int j, d)
                   \<and> ((\<forall>m<0. \<not> IsFree (txs ?two ! m)) \<longrightarrow> j = 0))"
      by blast
    from nx db tr obtain d where "addTx cleared ''books'' = Inr (0, d)" by auto
    with cl show ?thesis by blast
  qed
  from f1(3) c1 c2 c3 c4 show ?thesis by blast
qed

text \<open>
  The claim C6 as first stated fails when the transaction cannot be created: on an empty
  table, for a namespace the database does not know, \<^verbatim>\<open>addTx\<close> neither reuses a slot nor
  appends one, it throws the status of the transaction.
\<close>

theorem C6_counterexample:
  "length (txs (sample_client [] (Error errOK []))) < kMaxTxCount
   \<and> addTx (sample_client [] (Error errOK [])) ''users''
       = Inl (Error errNotFound ''Namespace does not exist'')
   \<and> StartTransaction (sample_client [] (Error errOK [])) ''users''
       = (Error errNotFound ''Namespace does not exist'', None, sample_client [] (Error errOK []))"
  by (simp add: StartTransaction_def addTx_def rpc_sample_defs kMaxTxCount_def Let_def)








subsection \<open>HTTP server\<close>

lemma removeExpiredTx_loop_kept:
  "fst (removeExpiredTx_loop mgr now xs) = filter (\<lambda>(k, v). now < txDeadline v) xs"
  by (induction xs) (auto simp add: Let_def case_prod_beta)

lemma removeExpiredTx_loop_rolled:
  "snd (removeExpiredTx_loop mgr now xs) =
     map (\<lambda>(k, v). (k, tx v))
       (filter (\<lambda>(k, v). txDeadline v \<le> now \<and> ok (OpenDatabase mgr (dbName v))
                          \<and> GetDB_nonnull mgr (dbName v)) xs)"
  by (induction xs) (auto simp add: Let_def case_prod_beta)

lemma removeExpiredTx_eq:
  "removeExpiredTx mgr now srv =
     (srv\<lparr> txMap := filter (\<lambda>(k, v). now < txDeadline v) (txMap srv) \<rparr>,
      map (\<lambda>(k, v). (k, tx v))
        (filter (\<lambda>(k, v). txDeadline v \<le> now \<and> ok (OpenDatabase mgr (dbName v))
                           \<and> GetDB_nonnull mgr (dbName v)) (txMap srv)))"
  using removeExpiredTx_loop_kept [of mgr now "txMap srv"]
    removeExpiredTx_loop_rolled [of mgr now "txMap srv"]
  by (simp add: removeExpiredTx_def case_prod_beta)

lemma HTTP_getTx_renews:
  assumes "map_of (txMap srv) txId = Some found" "ieq (dbName found) dbn"
  shows "HTTP_getTx ieq now srv dbn txId
           = Inr (tx found, srv\<lparr> txMap := AList.update txId
                     (found\<lparr> txDeadline := now + txIdleTimeout srv \<rparr>) (txMap srv) \<rparr>)"
    and "map_of (AList.update txId (found\<lparr> txDeadline := now + txIdleTimeout srv \<rparr>) (txMap srv)) txId
           = Some (found\<lparr> txDeadline := now + txIdleTimeout srv \<rparr>)"
    and "k \<noteq> txId \<Longrightarrow>
         map_of (AList.update txId (found\<lparr> txDeadline := now + txIdleTimeout srv \<rparr>) (txMap srv)) k
           = map_of (txMap srv) k"
  using assms by (simp_all add: HTTP_getTx_def update_conv')

text \<open>
  C8, as amended. Every successful \<^verbatim>\<open>getTx\<close> of the HTTP server sets the deadline of
  the transaction it returns to the clock reading plus \<^verbatim>\<open>txIdleTimeout_\<close> and leaves
  the other entries alone. A pass of \<^verbatim>\<open>removeExpiredTx\<close> keeps exactly the entries whose
  deadline is after the clock reading. It calls \<^verbatim>\<open>RollBackTransaction\<close> exactly on the
  entries whose deadline has passed and whose database opens and is handed out: so
  every transaction it rolls back has a passed deadline (with distinct ids, a
  transaction before its deadline is neither rolled back nor removed), and every entry
  whose deadline has passed is removed, and rolled back when its database can be opened.
\<close>

theorem C8_idle_deadline:
  "(map_of (txMap srv) txId = Some found \<and> ieq (dbName found) dbn \<longrightarrow>
      (\<exists>srv'. HTTP_getTx ieq now srv dbn txId = Inr (tx found, srv')
         \<and> map_of (txMap srv') txId = Some (found\<lparr> txDeadline := now + txIdleTimeout srv \<rparr>)
         \<and> (\<forall>k. k \<noteq> txId \<longrightarrow> map_of (txMap srv') k = map_of (txMap srv) k)))
   \<and> txMap (fst (removeExpiredTx mgr now srv)) = filter (\<lambda>(k, v). now < txDeadline v) (txMap srv)
   \<and> snd (removeExpiredTx mgr now srv)
       = map (\<lambda>(k, v). (k, tx v))
           (filter (\<lambda>(k, v). txDeadline v \<le> now \<and> ok (OpenDatabase mgr (dbName v))
                              \<and> GetDB_nonnull mgr (dbName v)) (txMap srv))
   \<and> (\<forall>(k, t) \<in> set (snd (removeExpiredTx mgr now srv)).
         \<exists>v. (k, v) \<in> set (txMap srv) \<and> t = tx v \<and> txDeadline v \<le> now)
   \<and> (List.distinct (map fst (txMap srv)) \<longrightarrow>
        (\<forall>(k, v) \<in> set (txMap srv). now < txDeadline v \<longrightarrow>
            k \<notin> fst ` set (snd (removeExpiredTx mgr now srv))
            \<and> (k, v) \<in> set (txMap (fst (removeExpiredTx mgr now srv)))))
   \<and> (\<forall>(k, v) \<in> set (txMap srv). txDeadline v \<le> now \<longrightarrow>
         (k, v) \<notin> set (txMap (fst (removeExpiredTx mgr now srv)))
         \<and> (ok (OpenDatabase mgr (dbName v)) \<and> GetDB_nonnull mgr (dbName v) \<longrightarrow>
              (k, tx v) \<in> set (snd (removeExpiredTx mgr now srv))))"
proof -
  let ?open = "\<lambda>(k, v). txDeadline v \<le> now \<and> ok (OpenDatabase mgr (dbName v))
                          \<and> GetDB_nonnull mgr (dbName v)"
  have kept: "txMap (fst (removeExpiredTx mgr now srv))
                = filter (\<lambda>(k, v). now < txDeadline v) (txMap srv)"
    and rolled: "snd (removeExpiredTx mgr now srv)
                = map (\<lambda>(k, v). (k, tx v)) (filter ?open (txMap srv))"
    by (simp_all add: removeExpiredTx_eq)
  have a: "\<exists>srv'. HTTP_getTx ieq now srv dbn txId = Inr (tx found, srv')
         \<and> map_of (txMap srv') txId = Some (found\<lparr> txDeadline := now + txIdleTimeout srv \<rparr>)
         \<and> (\<forall>k. k \<noteq> txId \<longrightarrow> map_of (txMap srv') k = map_of (txMap srv) k)"
    if "map_of (txMap srv) txId = Some found" "ieq (dbName found) dbn"
    using that HTTP_getTx_renews [where srv = srv and txId = txId and found = found
        and ieq = ieq and dbn = dbn and now = now] by simp
  have b: "\<forall>(k, t) \<in> set (snd (removeExpiredTx mgr now srv)).
         \<exists>v. (k, v) \<in> set (txMap srv) \<and> t = tx v \<and> txDeadline v \<le> now"
    unfolding rolled by auto
  have c: "\<forall>(k, v) \<in> set (txMap srv). now < txDeadline v \<longrightarrow>
            k \<notin> fst ` set (snd (removeExpiredTx mgr now srv))
            \<and> (k, v) \<in> set (txMap (fst (removeExpiredTx mgr now srv)))"
    if d: "List.distinct (map fst (txMap srv))"
  proof (intro ballI, clarify)
    fix k v assume in_map: "(k, v) \<in> set (txMap srv)" and later: "now < txDeadline v"
    have "k \<notin> fst ` set (snd (removeExpiredTx mgr now srv))"
    proof
      assume "k \<in> fst ` set (snd (removeExpiredTx mgr now srv))"
      then obtain w where w: "(k, w) \<in> set (txMap srv)" "txDeadline w \<le> now"
        unfolding rolled by auto
      from d in_map w(1) have "v = w" by (meson eq_key_imp_eq_value)
      with later w(2) show False by simp
    qed
    moreover have "(k, v) \<in> set (txMap (fst (removeExpiredTx mgr now srv)))"
      unfolding kept using in_map later by simp
    ultimately show "k \<notin> fst ` set (snd (removeExpiredTx mgr now srv))
        \<and> (k, v) \<in> set (txMap (fst (removeExpiredTx mgr now srv)))" by blast
  qed
  have e: "\<forall>(k, v) \<in> set (txMap srv). txDeadline v \<le> now \<longrightarrow>
         (k, v) \<notin> set (txMap (fst (removeExpiredTx mgr now srv)))
         \<and> (ok (OpenDatabase mgr (dbName v)) \<and> GetDB_nonnull mgr (dbName v) \<longrightarrow>
              (k, tx v) \<in> set (snd (removeExpiredTx mgr now srv)))"
    unfolding kept rolled by force
  from a kept rolled b c e show ?thesis by blast
qed

theorem C8_idle_deadline_witness:
  "map_of (txMap sample_srv) ''t2''
     = Some \<lparr> tx = sample_tx (Error errOK []), dbName = ''db'', txDeadline = 50 \<rparr>
   \<and> (\<exists>srv'. HTTP_getTx (=) 25 sample_srv ''db'' ''t2'' = Inr (sample_tx (Error errOK []), srv')
         \<and> map_of (txMap srv') ''t2''
             = Some \<lparr> tx = sample_tx (Error errOK []), dbName = ''db'', txDeadline = 55 \<rparr>)
   \<and> List.distinct (map fst (txMap sample_srv))
   \<and> map fst (txMap (fst (removeExpiredTx sample_mgr 25 sample_srv))) = [''t2'']
   \<and> snd (removeExpiredTx sample_mgr 25 sample_srv) = [(''t1'', sample_tx (Error errOK []))]"
proof -
  let ?found = "\<lparr> tx = sample_tx (Error errOK []), dbName = ''db'', txDeadline = 50 \<rparr>"
  have h: "map_of (txMap sample_srv) ''t2'' = Some ?found" "dbName ?found = ''db''"
    "List.distinct (map fst (txMap sample_srv))" "txIdleTimeout sample_srv = 30"
    by (simp_all add: sample_srv_def)
  note inst = C8_idle_deadline [where srv = sample_srv and txId = "''t2''" and found = ?found
      and ieq = "(=)" and dbn = "''db''" and now = 25 and mgr = sample_mgr]
  from inst [THEN conjunct1] h
  have c1: "\<exists>srv'. HTTP_getTx (=) 25 sample_srv ''db'' ''t2'' = Inr (sample_tx (Error errOK []), srv')
         \<and> map_of (txMap srv') ''t2''
             = Some \<lparr> tx = sample_tx (Error errOK []), dbName = ''db'', txDeadline = 55 \<rparr>"
    by simp blast
  from inst [THEN conjunct2, THEN conjunct1]
  have c2: "map fst (txMap (fst (removeExpiredTx sample_mgr 25 sample_srv))) = [''t2'']"
    by (simp add: sample_srv_def)
  from inst [THEN conjunct2, THEN conjunct2, THEN conjunct1]
  have c3: "snd (removeExpiredTx sample_mgr 25 sample_srv) = [(''t1'', sample_tx (Error errOK []))]"
    by (simp add: sample_srv_def sample_mgr_def ok_def)
  from h(1,3) c1 c2 c3 show ?thesis by blast
qed

text \<open>
  The claim C8 as first stated fails for a transaction whose database cannot be opened:
  at clock reading 25 the transaction \<open>''t3''\<close>, with deadline 20, is removed from the
  map, and \<^verbatim>\<open>RollBackTransaction\<close> is not called on it.
\<close>

theorem C8_counterexample:
  "(''t3'', \<lparr> tx = sample_tx (Error errOK []), dbName = ''gone'', txDeadline = 20 \<rparr>)
      \<in> set (txMap sample_srv)
   \<and> (20 :: int) \<le> 25
   \<and> ''t3'' \<notin> fst ` set (snd (removeExpiredTx sample_mgr 25 sample_srv))
   \<and> ''t3'' \<notin> fst ` set (txMap (fst (removeExpiredTx sample_mgr 25 sample_srv)))"
  by (simp add: removeExpiredTx_def sample_srv_def sample_mgr_def ok_def Let_def)

subsection \<open>Namespace locks\<close>

text \<open>
  C9. \<^verbatim>\<open>WLock\<close> locks the namespace mutex and then loads the read-only flag; when the
  flag is set it throws \<^verbatim>\<open>errNamespaceInvalidated\<close>, otherwise it returns the lock.
  \<^verbatim>\<open>StorageLock\<close> does the same on the storage mutex. \<^verbatim>\<open>RLock\<close> never loads the
  flag and always returns its lock, also after \<^verbatim>\<open>MarkReadOnly\<close>, when the two others
  throw.
\<close>

theorem C9_write_locks_check_readonly:
  "(readonly l \<longrightarrow>
      snd (WLock l) = Inl (Error errNamespaceInvalidated ''NS invalidated'')
      \<and> snd (StorageLock l) = Inl (Error errNamespaceInvalidated ''NS invalidated''))
   \<and> (\<not> readonly l \<longrightarrow> snd (WLock l) = Inr WLockT \<and> snd (StorageLock l) = Inr StorageLockT)
   \<and> take 2 (fst (WLock l)) = [lock_unique_mtx, load_readonly]
   \<and> take 2 (fst (StorageLock l)) = [lock_storage_mtx, load_readonly]
   \<and> load_readonly \<notin> set (fst (RLock l))
   \<and> snd (RLock l) = RLockT
   \<and> RLock (MarkReadOnly l) = ([lock_shared_mtx], RLockT)
   \<and> snd (WLock (MarkReadOnly l)) = Inl (Error errNamespaceInvalidated ''NS invalidated'')
   \<and> snd (StorageLock (MarkReadOnly l)) = Inl (Error errNamespaceInvalidated ''NS invalidated'')"
  by (simp add: WLock_def StorageLock_def RLock_def MarkReadOnly_def)

theorem C9_write_locks_check_readonly_witness:
  "readonly (MarkReadOnly Locker_new)
   \<and> snd (WLock (MarkReadOnly Locker_new)) = Inl (Error errNamespaceInvalidated ''NS invalidated'')
   \<and> snd (StorageLock (MarkReadOnly Locker_new)) = Inl (Error errNamespaceInvalidated ''NS invalidated'')
   \<and> snd (RLock (MarkReadOnly Locker_new)) = RLockT
   \<and> \<not> readonly Locker_new
   \<and> snd (WLock Locker_new) = Inr WLockT
   \<and> snd (StorageLock Locker_new) = Inr StorageLockT"
proof -
  have h: "readonly (MarkReadOnly Locker_new)" "\<not> readonly Locker_new"
    by (simp_all add: MarkReadOnly_def Locker_new_def)
  from C9_write_locks_check_readonly [of "MarkReadOnly Locker_new"]
    C9_write_locks_check_readonly [of Locker_new] h
  show ?thesis by simp
qed


subsection \<open>Fuzzy full-text index\<close>







subsection \<open>Null keys\<close>

text \<open>
  C10. A Null key is a no-op of the string store index: Upsert of a Null key returns the
  empty Variant and the index unchanged (so \<^verbatim>\<open>str_map\<close>, \<^verbatim>\<open>expiredStrings_\<close> and the
  memory statistics are unchanged), Delete of a Null key returns the index unchanged,
  and Delete of an empty VariantArray is the Delete of the Null key, which changes
  nothing either.
\<close>

theorem C10_null_key_is_noop:
  "Type key = KeyValueNull \<longrightarrow>
     Upsert L s key rid = (VNull, s) \<and> Type (fst (Upsert L s key rid)) = KeyValueNull
     \<and> Delete L s key rid = s
     \<and> Delete_keys L s [] rid = Delete L s key rid
     \<and> Delete_keys L s [] rid = s"
  by (cases key) (simp_all add: Delete_keys_def Upsert.simps Delete.simps)

theorem C10_null_key_is_noop_witness:
  "Type VNull = KeyValueNull
   \<and> Upsert sizes64 idx0 VNull 7 = (VNull, idx0) \<and> Delete sizes64 idx0 VNull 7 = idx0
   \<and> Delete_keys sizes64 idx0 [] 7 = idx0"
  using C10_null_key_is_noop [of VNull sizes64 idx0 7] by simp

end
